theory Spec2Isabelle
  imports Complex_Main "HOL-Library.Sublist"
begin

section \<open>JavaScript values used by the deduplicator\<close>

text \<open>
  A string is a list of code units; the model covers the code units 0..255. A property that
  may be missing (\<open>undefined\<close>) is an \<open>option\<close>. A string is truthy when it is present
  and not empty.
\<close>

definition truthy :: "string option \<Rightarrow> bool" where
  "truthy v = (case v of None \<Rightarrow> False | Some s \<Rightarrow> s \<noteq> [])"

text \<open>\<open>v || ''\<close> on a string property.\<close>

definition or_empty :: "string option \<Rightarrow> string" where
  "or_empty v = (case v of None \<Rightarrow> [] | Some s \<Rightarrow> s)"

text \<open>\<open>${v}\<close> in a template literal: a missing property prints as \<open>undefined\<close>.\<close>

definition template :: "string option \<Rightarrow> string" where
  "template v = (case v of None \<Rightarrow> ''undefined'' | Some s \<Rightarrow> s)"

text \<open>
  Numbers. The similarity score is the quotient of two set sizes, so it is a rational number,
  \<open>NaN\<close> (0/0) or \<open>Infinity\<close> (n/0); the thresholds are numbers of the same kind. The
  quotient is kept exact, where the code rounds it to a double: \<open>a / b >= t\<close> on doubles
  agrees with the exact comparison unless the exact quotient lies within one rounding step
  below \<open>t\<close>. For the default thresholds 0.9 and 0.85 that needs token sets of about
  \<open>10^15\<close> elements; for a supplied threshold that is the double nearest to a quotient
  and above it (0.7142857142857143 for 5/7) the code accepts the quotient and the exact
  comparison does not.
\<close>

datatype jsnum = NaN | PInf | Num rat

text \<open>\<open>n / d\<close> on two sizes.\<close>

definition js_div :: "nat \<Rightarrow> nat \<Rightarrow> jsnum" where
  "js_div n d = (if d = 0 then (if n = 0 then NaN else PInf) else Num (of_nat n / of_nat d))"

text \<open>\<open>a >= b\<close>: false as soon as one side is \<open>NaN\<close>.\<close>

fun js_ge :: "jsnum \<Rightarrow> jsnum \<Rightarrow> bool" where
  "js_ge (Num a) (Num b) = (b \<le> a)"
| "js_ge PInf (Num b) = True"
| "js_ge PInf PInf = True"
| "js_ge (Num a) PInf = False"
| "js_ge NaN b = False"
| "js_ge a NaN = False"

text \<open>Truthiness of a number: \<open>0\<close> and \<open>NaN\<close> are falsy.\<close>

fun truthy_num :: "jsnum \<Rightarrow> bool" where
  "truthy_num NaN = False"
| "truthy_num PInf = True"
| "truthy_num (Num r) = (r \<noteq> 0)"

text \<open>\<open>v || d\<close> on a numeric option (\<open>None\<close>: the option is not supplied).\<close>

definition num_or :: "jsnum option \<Rightarrow> jsnum \<Rightarrow> jsnum" where
  "num_or v d = (case v of None \<Rightarrow> d | Some x \<Rightarrow> if truthy_num x then x else d)"

text \<open>
  A \<open>Set\<close> keeps its elements once, in insertion order; \<open>new Set(xs)\<close> adds the elements
  of \<open>xs\<close> from left to right.
\<close>

definition Set_add :: "'a list \<Rightarrow> 'a \<Rightarrow> 'a list" where
  "Set_add s x = (if x \<in> set s then s else s @ [x])"

definition new_Set :: "'a list \<Rightarrow> 'a list" where
  "new_Set xs = foldl Set_add [] xs"

section \<open>Leads\<close>

text \<open>
  A lead is an object with the optional properties the deduplicator reads, the property
  \<open>duplicateOf\<close> it writes on a copy, and the other properties it carries along.
\<close>

record Lead =
  lead_id :: "string option"
  source :: "string option"
  url :: "string option"
  title :: "string option"
  lead_text :: "string option"
  duplicateOf :: "string option"
  others :: "(string \<times> string) list"

section \<open>The Deduplicator class\<close>

record Options =
  opt_similarityThreshold :: "jsnum option"
  opt_titleThreshold :: "jsnum option"

record Deduplicator =
  similarityThreshold :: jsnum
  titleThreshold :: jsnum

text \<open>\<open>constructor(options = {})\<close>: \<open>None\<close> is a call without argument.\<close>

definition constructor :: "Options option \<Rightarrow> Deduplicator" where
  "constructor options =
     (let opts = (case options of
                    None \<Rightarrow> \<lparr>opt_similarityThreshold = None, opt_titleThreshold = None\<rparr>
                  | Some given \<Rightarrow> given)
      in \<lparr>similarityThreshold = num_or (opt_similarityThreshold opts) (Num (85 / 100)),
          titleThreshold = num_or (opt_titleThreshold opts) (Num (9 / 10))\<rparr>)"

text \<open>
  \<open>generateId\<close>: the first 16 characters of the hexadecimal SHA-256 digest of
  \<open>source:url:title-or-text\<close>. The digest is the runtime's (\<open>crypto.createHash\<close>); it is
  the parameter \<open>digest\<close>.
\<close>

definition generateId :: "(string \<Rightarrow> string) \<Rightarrow> Lead \<Rightarrow> string" where
  "generateId digest ld =
     (let content = template (source ld) @ '':'' @ or_empty (url ld) @ '':'' @
                    (if truthy (title ld) then or_empty (title ld)
                     else if truthy (lead_text ld) then or_empty (lead_text ld)
                     else [])
      in take 16 (digest content))"

subsection \<open>tokenize\<close>

definition code_unit :: "char \<Rightarrow> nat" where
  "code_unit c = of_char c"

text \<open>\<open>toLowerCase\<close> on the code units 0..255: A-Z, and the capital letters of Latin-1.\<close>

definition toLowerCase_char :: "char \<Rightarrow> char" where
  "toLowerCase_char c =
     (let n = code_unit c
      in if (65 \<le> n \<and> n \<le> 90) \<or> (192 \<le> n \<and> n \<le> 222 \<and> n \<noteq> 215)
         then char_of (n + 32) else c)"

definition toLowerCase :: "string \<Rightarrow> string" where
  "toLowerCase s = map toLowerCase_char s"

text \<open>\<open>\w\<close>: a letter of A-Z or a-z, a digit or the underscore.\<close>

definition is_word :: "char \<Rightarrow> bool" where
  "is_word c =
     (let n = code_unit c
      in (48 \<le> n \<and> n \<le> 57) \<or> (65 \<le> n \<and> n \<le> 90) \<or> n = 95 \<or> (97 \<le> n \<and> n \<le> 122))"

text \<open>\<open>\s\<close> on the code units 0..255: tab, line feed, vertical tab, form feed, carriage
  return, space and the no-break space.\<close>

definition is_space :: "char \<Rightarrow> bool" where
  "is_space c = (let n = code_unit c in (9 \<le> n \<and> n \<le> 13) \<or> n = 32 \<or> n = 160)"

text \<open>\<open>.replace(/[^\w\s]/g, ' ')\<close>\<close>

definition replace_punct :: "string \<Rightarrow> string" where
  "replace_punct s = map (\<lambda>c. if is_word c \<or> is_space c then c else CHR '' '') s"

text \<open>
  \<open>.split(/\s+/)\<close>: the pieces between the maximal runs of white space. A run at the start
  or at the end leaves an empty piece there, and the empty string gives one empty piece.
  \<open>cur\<close> is the piece being read; \<open>in_run\<close> says that the last character was white space.
\<close>

fun split_loop :: "bool \<Rightarrow> string \<Rightarrow> string \<Rightarrow> string list" where
  "split_loop in_run cur [] = [cur]"
| "split_loop in_run cur (c # cs) =
     (if is_space c
      then (if in_run then split_loop True cur cs else cur # split_loop True [] cs)
      else split_loop False (cur @ [c]) cs)"

definition split_ws :: "string \<Rightarrow> string list" where
  "split_ws s = split_loop False [] s"

definition tokenize :: "string option \<Rightarrow> string list" where
  "tokenize txt =
     filter (\<lambda>w. length w > 2) (split_ws (replace_punct (toLowerCase (or_empty txt))))"

subsection \<open>jaccardSimilarity\<close>

definition jaccardSimilarity :: "string option \<Rightarrow> string option \<Rightarrow> jsnum" where
  "jaccardSimilarity str1 str2 =
     (let set1 = new_Set (tokenize str1);
          set2 = new_Set (tokenize str2);
          intersection = new_Set (filter (\<lambda>x. x \<in> set set2) set1);
          union = new_Set (set1 @ set2)
      in js_div (length intersection) (length union))"

subsection \<open>isDuplicate\<close>

text \<open>The combined text \<open>`${lead.title || ''} ${lead.text || ''}`\<close>.\<close>

definition content :: "Lead \<Rightarrow> string" where
  "content ld = or_empty (title ld) @ '' '' @ or_empty (lead_text ld)"

definition isDuplicate :: "Deduplicator \<Rightarrow> Lead \<Rightarrow> Lead \<Rightarrow> bool" where
  "isDuplicate this lead1 lead2 =
     (if truthy (url lead1) \<and> truthy (url lead2) \<and> url lead1 = url lead2 then True
      else if source lead1 = source lead2 \<and>
              js_ge (jaccardSimilarity (title lead1) (title lead2)) (titleThreshold this)
      then True
      else js_ge (jaccardSimilarity (Some (content lead1)) (Some (content lead2)))
                 (similarityThreshold this))"

subsection \<open>dedupe\<close>

text \<open>
  The leads of the input array are objects of the caller: the array holds references, and
  \<open>dedupe\<close> writes the generated id into the object. The heap maps a reference to the
  object it points to. \<open>unique\<close> holds references to the input objects; \<open>duplicates\<close> holds
  the fresh objects built by \<open>{ ...lead, duplicateOf: existing.id }\<close>, which nothing refers
  to but the result.
\<close>

type_synonym ref = nat

record dedupe_state =
  heap :: "ref \<Rightarrow> Lead"
  unique :: "ref list"
  duplicates :: "Lead list"

text \<open>\<open>if (!lead.id) lead.id = this.generateId(lead)\<close>, on the object.\<close>

definition assignId :: "(string \<Rightarrow> string) \<Rightarrow> Lead \<Rightarrow> Lead" where
  "assignId digest ld =
     (if \<not> truthy (lead_id ld) then ld\<lparr>lead_id := Some (generateId digest ld)\<rparr> else ld)"

text \<open>
  The inner loop over \<open>unique\<close>: at the first \<open>existing\<close> that \<open>isDuplicate\<close> accepts it
  builds the duplicate record and breaks; \<open>None\<close> is \<open>isDup = false\<close> at the end of the loop.
\<close>

fun check_unique :: "Deduplicator \<Rightarrow> Lead \<Rightarrow> Lead list \<Rightarrow> Lead option" where
  "check_unique this ld [] = None"
| "check_unique this ld (existing # rest) =
     (if isDuplicate this ld existing
      then Some (ld\<lparr>duplicateOf := lead_id existing\<rparr>)
      else check_unique this ld rest)"

text \<open>The body of the outer loop, for the lead behind the reference \<open>r\<close>.\<close>

definition dedupe_body :: "(string \<Rightarrow> string) \<Rightarrow> Deduplicator \<Rightarrow> dedupe_state \<Rightarrow> ref \<Rightarrow> dedupe_state" where
  "dedupe_body digest this st r =
     (let h = (heap st)(r := assignId digest (heap st r));
          ld = h r
      in case check_unique this ld (map h (unique st)) of
           Some dup \<Rightarrow> st\<lparr>heap := h, duplicates := duplicates st @ [dup]\<rparr>
         | None \<Rightarrow> st\<lparr>heap := h, unique := unique st @ [r]\<rparr>)"

definition dedupe :: "(string \<Rightarrow> string) \<Rightarrow> Deduplicator \<Rightarrow> (ref \<Rightarrow> Lead) \<Rightarrow> ref list \<Rightarrow> dedupe_state" where
  "dedupe digest this h leads =
     foldl (dedupe_body digest this) \<lparr>heap = h, unique = [], duplicates = []\<rparr> leads"

subsection \<open>checkExisting\<close>

text \<open>
  The store is any object with the two methods \<open>getLeadById\<close> and \<open>getAllLeads\<close>.
  \<open>Database\<close> is the JSON database of the repository, over its array \<open>data.leads\<close>.
\<close>

record db =
  getLeadById :: "string option \<Rightarrow> Lead option"
  getAllLeads :: "Lead list"

definition Database :: "Lead list \<Rightarrow> db" where
  "Database leads =
     \<lparr>getLeadById = (\<lambda>i. find (\<lambda>l. lead_id l = i) leads), getAllLeads = leads\<rparr>"

text \<open>The result object: \<open>lead\<close> and \<open>similar\<close> are missing where the code does not set them.\<close>

record check_result =
  res_exists :: bool
  res_lead :: "Lead option"
  res_similar :: "bool option"

fun check_similar :: "Deduplicator \<Rightarrow> Lead \<Rightarrow> Lead list \<Rightarrow> check_result" where
  "check_similar this ld [] = \<lparr>res_exists = False, res_lead = None, res_similar = None\<rparr>"
| "check_similar this ld (existing # rest) =
     (if isDuplicate this ld existing
      then \<lparr>res_exists = True, res_lead = Some existing, res_similar = Some True\<rparr>
      else check_similar this ld rest)"

definition checkExisting :: "Deduplicator \<Rightarrow> Lead \<Rightarrow> db \<Rightarrow> check_result" where
  "checkExisting this ld store =
     (case getLeadById store (lead_id ld) of
        Some existing \<Rightarrow> \<lparr>res_exists = True, res_lead = Some existing, res_similar = None\<rparr>
      | None \<Rightarrow> check_similar this ld (getAllLeads store))"

subsection \<open>Object literals\<close>

text \<open>The object literal \<open>{ id, source, url, title, text }\<close>, for the examples.\<close>

abbreviation lead_obj ::
  "string option \<Rightarrow> string option \<Rightarrow> string option \<Rightarrow> string option \<Rightarrow> string option \<Rightarrow> Lead" where
  "lead_obj i s u t x \<equiv>
     \<lparr>lead_id = i, source = s, url = u, title = t, lead_text = x, duplicateOf = None, others = []\<rparr>"

subsection \<open>Example data\<close>

text \<open>
  Four leads and a heap that holds them at the references 0 to 3. The fourth has no id; it
  has the url of the second and the source and title of the third. In the examples the
  digest is the identity function, so that a generated id is the first 16 characters of
  \<open>source:url:title\<close>.
\<close>

abbreviation lead_A :: Lead where
  "lead_A \<equiv> lead_obj (Some ''a'') (Some ''hn'') (Some ''http://e.com/1'') (Some ''alpha beta gamma'') None"

abbreviation lead_B :: Lead where
  "lead_B \<equiv> lead_obj (Some ''b'') (Some ''hn'') (Some ''http://e.com/2'') (Some ''delta epsilon zeta'') None"

abbreviation lead_C :: Lead where
  "lead_C \<equiv> lead_obj (Some ''c'') (Some ''reddit'') (Some ''http://e.com/3'') (Some ''eta theta iota'') None"

abbreviation lead_X :: Lead where
  "lead_X \<equiv> lead_obj None (Some ''reddit'') (Some ''http://e.com/2'') (Some ''eta theta iota'') None"

abbreviation example_heap :: "ref \<Rightarrow> Lead" where
  "example_heap \<equiv>
     (\<lambda>r. lead_obj None None None None None)(0 := lead_A, 1 := lead_B, 2 := lead_C, 3 := lead_X)"

section \<open>Sets and the similarity score\<close>

lemma set_foldl_Set_add: "set (foldl Set_add acc xs) = set acc \<union> set xs"
  by (induction xs arbitrary: acc) (auto simp: Set_add_def)

lemma distinct_foldl_Set_add: "distinct acc \<Longrightarrow> distinct (foldl Set_add acc xs)"
  by (induction xs arbitrary: acc) (auto simp: Set_add_def)

lemma set_new_Set: "set (new_Set xs) = set xs"
  by (simp add: new_Set_def set_foldl_Set_add)

lemma distinct_new_Set: "distinct (new_Set xs)"
  by (simp add: new_Set_def distinct_foldl_Set_add)

lemma length_new_Set: "length (new_Set xs) = card (set xs)"
  using distinct_card [OF distinct_new_Set, of xs] by (simp add: set_new_Set)

lemma new_Set_Nil: "new_Set [] = []"
  by (simp add: new_Set_def)

lemma jaccard_self:
  assumes "tokenize a \<noteq> []"
  shows "jaccardSimilarity a a = Num 1"
proof -
  let ?s = "new_Set (tokenize a)"
  have ne: "card (set (tokenize a)) \<noteq> 0"
    using assms by simp
  have i: "length (new_Set (filter (\<lambda>x. x \<in> set ?s) ?s)) = card (set (tokenize a))"
    by (simp add: length_new_Set set_new_Set)
  have u: "length (new_Set (?s @ ?s)) = card (set (tokenize a))"
    by (simp add: length_new_Set set_new_Set)
  have "jaccardSimilarity a a = js_div (card (set (tokenize a))) (card (set (tokenize a)))"
    unfolding jaccardSimilarity_def Let_def i u ..
  also have "\<dots> = Num 1"
    using ne unfolding js_div_def by simp
  finally show ?thesis .
qed

lemma jaccard_empty:
  assumes "tokenize a = []" and "tokenize b = []"
  shows "jaccardSimilarity a b = NaN"
  using assms by (simp add: jaccardSimilarity_def new_Set_Nil js_div_def)

text \<open>
  C1, as the code has it: a string with at least one token (a word of more than two
  characters) has similarity 1 with itself; when both strings have no token, the score is
  \<open>NaN\<close> (0/0), which no threshold comparison accepts.
\<close>

theorem similarity_identity:
  "(tokenize a \<noteq> [] \<longrightarrow> jaccardSimilarity a a = Num 1) \<and>
   (tokenize a = [] \<and> tokenize b = [] \<longrightarrow>
      jaccardSimilarity a b = NaN \<and> \<not> js_ge (jaccardSimilarity a b) t)"
  using jaccard_self [of a] jaccard_empty [of a b] by simp

theorem similarity_identity_witness:
  "tokenize (Some ''Need Ads Help'') \<noteq> [] \<and>
   jaccardSimilarity (Some ''Need Ads Help'') (Some ''Need Ads Help'') = Num 1 \<and>
   tokenize (Some ''hi'') = [] \<and> tokenize None = [] \<and>
   jaccardSimilarity (Some ''hi'') None = NaN \<and>
   \<not> js_ge (jaccardSimilarity (Some ''hi'') None) (Num (85 / 100))"
proof -
  have a: "tokenize (Some ''Need Ads Help'') \<noteq> []" by code_simp
  have b: "tokenize (Some ''hi'') = []" by code_simp
  have c: "tokenize None = []" by code_simp
  from a b c similarity_identity [of "Some ''Need Ads Help''" "None"]
    similarity_identity [of "Some ''hi''" "None" "Num (85 / 100)"]
  show ?thesis by simp
qed

text \<open>
  C1 as stated fails: the empty string scores \<open>NaN\<close> against itself and not 0, and the
  non-empty string \<open>hi\<close> scores \<open>NaN\<close> against itself and not 1.
\<close>

theorem similarity_identity_counterexample:
  "jaccardSimilarity (Some '''') (Some '''') = NaN \<and>
   jaccardSimilarity (Some '''') (Some '''') \<noteq> Num 0 \<and>
   ''hi'' \<noteq> '''' \<and>
   jaccardSimilarity (Some ''hi'') (Some ''hi'') = NaN \<and>
   jaccardSimilarity (Some ''hi'') (Some ''hi'') \<noteq> Num 1"
  by code_simp

section \<open>The thresholds of an instance\<close>

text \<open>
  C3, as the code has it, for each threshold on its own and whatever the other option is: a
  threshold supplied with a value in (0, 1] is the threshold of the instance; a threshold
  that is not supplied, or is supplied as 0, is replaced by its default, 0.85 for the
  general similarity and 0.9 for the title. \<open>isDuplicate\<close> classifies with the two
  thresholds of the instance it is called on: the title tier accepts a title similarity at
  or above \<open>titleThreshold\<close>, the last tier a combined similarity at or above
  \<open>similarityThreshold\<close>.
\<close>

theorem constructor_thresholds:
  "(0 < s \<and> s \<le> 1 \<longrightarrow>
      similarityThreshold (constructor
        (Some \<lparr>opt_similarityThreshold = Some (Num s), opt_titleThreshold = ot\<rparr>)) = Num s) \<and>
   (os = None \<or> os = Some (Num 0) \<longrightarrow>
      similarityThreshold (constructor
        (Some \<lparr>opt_similarityThreshold = os, opt_titleThreshold = ot\<rparr>)) = Num (85 / 100)) \<and>
   (0 < t \<and> t \<le> 1 \<longrightarrow>
      titleThreshold (constructor
        (Some \<lparr>opt_similarityThreshold = os, opt_titleThreshold = Some (Num t)\<rparr>)) = Num t) \<and>
   (ot = None \<or> ot = Some (Num 0) \<longrightarrow>
      titleThreshold (constructor
        (Some \<lparr>opt_similarityThreshold = os, opt_titleThreshold = ot\<rparr>)) = Num (9 / 10)) \<and>
   constructor None = \<lparr>similarityThreshold = Num (85 / 100), titleThreshold = Num (9 / 10)\<rparr> \<and>
   isDuplicate this lead1 lead2 =
     ((truthy (url lead1) \<and> truthy (url lead2) \<and> url lead1 = url lead2) \<or>
      (source lead1 = source lead2 \<and>
       js_ge (jaccardSimilarity (title lead1) (title lead2)) (titleThreshold this)) \<or>
      js_ge (jaccardSimilarity (Some (content lead1)) (Some (content lead2)))
            (similarityThreshold this))"
  by (auto simp: constructor_def num_or_def isDuplicate_def)

text \<open>
  The options \<open>{similarityThreshold: 0.5, titleThreshold: 0}\<close> give the thresholds 0.5
  and 0.9, and \<open>{titleThreshold: 0.75}\<close> gives 0.85 and 0.75. Two leads of different
  sources whose combined texts have similarity 1/2 are duplicates for the first instance
  and not for the default one.
\<close>

theorem constructor_thresholds_witness:
  "(0::rat) < 1 / 2 \<and> (1::rat) / 2 \<le> 1 \<and> (0::rat) < 3 / 4 \<and> (3::rat) / 4 \<le> 1 \<and>
   similarityThreshold (constructor
     (Some \<lparr>opt_similarityThreshold = Some (Num (1 / 2)), opt_titleThreshold = Some (Num 0)\<rparr>))
     = Num (1 / 2) \<and>
   titleThreshold (constructor
     (Some \<lparr>opt_similarityThreshold = Some (Num (1 / 2)), opt_titleThreshold = Some (Num 0)\<rparr>))
     = Num (9 / 10) \<and>
   titleThreshold (constructor
     (Some \<lparr>opt_similarityThreshold = None, opt_titleThreshold = Some (Num (3 / 4))\<rparr>))
     = Num (3 / 4) \<and>
   similarityThreshold (constructor
     (Some \<lparr>opt_similarityThreshold = None, opt_titleThreshold = Some (Num (3 / 4))\<rparr>))
     = Num (85 / 100) \<and>
   isDuplicate (constructor
       (Some \<lparr>opt_similarityThreshold = Some (Num (1 / 2)), opt_titleThreshold = Some (Num 0)\<rparr>))
     (lead_obj (Some ''1'') (Some ''hn'') None (Some ''first second third'') None)
     (lead_obj (Some ''2'') (Some ''reddit'') None (Some ''first second fourth'') None) \<and>
   \<not> isDuplicate (constructor None)
     (lead_obj (Some ''1'') (Some ''hn'') None (Some ''first second third'') None)
     (lead_obj (Some ''2'') (Some ''reddit'') None (Some ''first second fourth'') None)"
proof -
  let ?P = "lead_obj (Some ''1'') (Some ''hn'') None (Some ''first second third'') None"
  let ?Q = "lead_obj (Some ''2'') (Some ''reddit'') None (Some ''first second fourth'') None"
  note w1 = constructor_thresholds [where s = "1 / 2" and ot = "Some (Num 0)"
      and os = "Some (Num (1 / 2))" and t = "3 / 4"
      and this = "constructor (Some \<lparr>opt_similarityThreshold = Some (Num (1 / 2)),
                                       opt_titleThreshold = Some (Num 0)\<rparr>)"
      and ?lead1.0 = ?P and ?lead2.0 = ?Q]
  note w2 = constructor_thresholds [where s = "1 / 2" and ot = None and os = None and t = "3 / 4"
      and this = "constructor None" and ?lead1.0 = ?P and ?lead2.0 = ?Q]
  have s1: "similarityThreshold (constructor
     (Some \<lparr>opt_similarityThreshold = Some (Num (1 / 2)), opt_titleThreshold = Some (Num 0)\<rparr>))
     = Num (1 / 2)"
    using w1 by simp
  have t1: "titleThreshold (constructor
     (Some \<lparr>opt_similarityThreshold = Some (Num (1 / 2)), opt_titleThreshold = Some (Num 0)\<rparr>))
     = Num (9 / 10)"
    using w1 by simp
  have t2: "titleThreshold (constructor
     (Some \<lparr>opt_similarityThreshold = None, opt_titleThreshold = Some (Num (3 / 4))\<rparr>))
     = Num (3 / 4)"
    using w2 by simp
  have s2: "similarityThreshold (constructor
     (Some \<lparr>opt_similarityThreshold = None, opt_titleThreshold = Some (Num (3 / 4))\<rparr>))
     = Num (85 / 100)"
    using constructor_thresholds [where os = None and ot = "Some (Num (3 / 4))"] by simp
  have c: "jaccardSimilarity (Some (content ?P)) (Some (content ?Q)) = Num (1 / 2)"
    by code_simp
  have d0: "constructor None = \<lparr>similarityThreshold = Num (85 / 100), titleThreshold = Num (9 / 10)\<rparr>"
    using w2 by simp
  have i1: "isDuplicate (constructor
       (Some \<lparr>opt_similarityThreshold = Some (Num (1 / 2)), opt_titleThreshold = Some (Num 0)\<rparr>)) ?P ?Q"
    using w1 [THEN conjunct2, THEN conjunct2, THEN conjunct2, THEN conjunct2, THEN conjunct2]
    unfolding s1 t1 c by simp
  have i2: "\<not> isDuplicate (constructor None) ?P ?Q"
    using w2 [THEN conjunct2, THEN conjunct2, THEN conjunct2, THEN conjunct2, THEN conjunct2]
    unfolding d0 c by (simp add: truthy_def)
  have n: "(0::rat) < 1 / 2" "(1::rat) / 2 \<le> 1" "(0::rat) < 3 / 4" "(3::rat) / 4 \<le> 1"
    by simp_all
  show ?thesis
    using n s1 t1 t2 s2 i1 i2 by (intro conjI)
qed

text \<open>
  C3 as stated fails at the supplied value 0, which lies in [0, 1]: \<open>0 || 0.85\<close> is 0.85,
  so the instance classifies with the defaults, and two leads that a threshold of 0 would
  make duplicates are not duplicates for it.
\<close>

theorem constructor_thresholds_counterexample:
  "(0::rat) \<le> 0 \<and> (0::rat) \<le> 1 \<and>
   similarityThreshold (constructor
      (Some \<lparr>opt_similarityThreshold = Some (Num 0), opt_titleThreshold = Some (Num 0)\<rparr>)) = Num (85 / 100) \<and>
   titleThreshold (constructor
      (Some \<lparr>opt_similarityThreshold = Some (Num 0), opt_titleThreshold = Some (Num 0)\<rparr>)) = Num (9 / 10) \<and>
   similarityThreshold (constructor
      (Some \<lparr>opt_similarityThreshold = Some (Num 0), opt_titleThreshold = Some (Num 0)\<rparr>)) \<noteq> Num 0 \<and>
   isDuplicate \<lparr>similarityThreshold = Num 0, titleThreshold = Num 0\<rparr>
      (lead_obj (Some ''1'') (Some ''hn'') None (Some ''first second'') None)
      (lead_obj (Some ''2'') (Some ''hn'') None (Some ''first third'') None) \<and>
   \<not> isDuplicate (constructor
        (Some \<lparr>opt_similarityThreshold = Some (Num 0), opt_titleThreshold = Some (Num 0)\<rparr>))
      (lead_obj (Some ''1'') (Some ''hn'') None (Some ''first second'') None)
      (lead_obj (Some ''2'') (Some ''hn'') None (Some ''first third'') None)"
  by code_simp

section \<open>isDuplicate\<close>

text \<open>
  C4: two leads whose \<open>url\<close> properties are present, not empty and equal are duplicates,
  whatever their source, title and text and whatever the thresholds of the instance.
\<close>

theorem url_short_circuit:
  assumes "url lead1 = Some u" and "url lead2 = Some u" and "u \<noteq> []"
  shows "isDuplicate this lead1 lead2"
  using assms by (simp add: isDuplicate_def truthy_def)

text \<open>Two leads with one url, different sources and unrelated texts, under thresholds of 1.\<close>

theorem url_short_circuit_witness:
  "url (lead_obj (Some ''1'') (Some ''reddit'') (Some ''http://e.com/1'') (Some ''Need Facebook Ads Help'') None)
     = Some ''http://e.com/1'' \<and>
   url (lead_obj (Some ''2'') (Some ''hackernews'') (Some ''http://e.com/1'') None (Some ''selling a bicycle''))
     = Some ''http://e.com/1'' \<and>
   ''http://e.com/1'' \<noteq> [] \<and>
   isDuplicate \<lparr>similarityThreshold = Num 1, titleThreshold = Num 1\<rparr>
     (lead_obj (Some ''1'') (Some ''reddit'') (Some ''http://e.com/1'') (Some ''Need Facebook Ads Help'') None)
     (lead_obj (Some ''2'') (Some ''hackernews'') (Some ''http://e.com/1'') None (Some ''selling a bicycle''))"
  using url_short_circuit [of
     "lead_obj (Some ''1'') (Some ''reddit'') (Some ''http://e.com/1'') (Some ''Need Facebook Ads Help'') None"
     "''http://e.com/1''"
     "lead_obj (Some ''2'') (Some ''hackernews'') (Some ''http://e.com/1'') None (Some ''selling a bicycle'')"
     "\<lparr>similarityThreshold = Num 1, titleThreshold = Num 1\<rparr>"]
  by simp

text \<open>
  C5: the thresholds are met or exceeded. For two leads without equal non-empty urls: with
  one source, a title similarity equal to the title threshold makes them duplicates; a title
  similarity strictly below the title threshold leaves the decision to the combined text,
  whose similarity is compared with the general threshold; when the title tier does not
  apply (different sources, or a title similarity strictly below its threshold) and the
  combined similarity is strictly below the general threshold, the leads are not duplicates;
  and a combined similarity equal to the general threshold makes them duplicates.
\<close>

theorem threshold_boundary:
  assumes "\<not> (truthy (url lead1) \<and> truthy (url lead2) \<and> url lead1 = url lead2)"
  shows
  "(source lead1 = source lead2 \<and>
    jaccardSimilarity (title lead1) (title lead2) = Num x \<and> titleThreshold this = Num x
      \<longrightarrow> isDuplicate this lead1 lead2) \<and>
   (jaccardSimilarity (title lead1) (title lead2) = Num x \<and> titleThreshold this = Num t \<and> x < t
      \<longrightarrow> isDuplicate this lead1 lead2 =
          js_ge (jaccardSimilarity (Some (content lead1)) (Some (content lead2)))
                (similarityThreshold this)) \<and>
   ((source lead1 \<noteq> source lead2 \<or>
     (jaccardSimilarity (title lead1) (title lead2) = Num x \<and> titleThreshold this = Num t \<and> x < t)) \<and>
    jaccardSimilarity (Some (content lead1)) (Some (content lead2)) = Num y \<and>
    similarityThreshold this = Num g \<and> y < g
      \<longrightarrow> \<not> isDuplicate this lead1 lead2) \<and>
   (jaccardSimilarity (Some (content lead1)) (Some (content lead2)) = Num g \<and>
    similarityThreshold this = Num g
      \<longrightarrow> isDuplicate this lead1 lead2)"
  using assms by (auto simp: isDuplicate_def)

text \<open>
  With the default thresholds: titles of 9 and 10 words sharing 9 (similarity 9/10), titles
  sharing 3 words of 9 (similarity 1/3), and texts of 17 and 20 words sharing 17
  (similarity 85/100) under different sources.
\<close>

theorem threshold_boundary_witness:
  "jaccardSimilarity (Some ''aaa bbb ccc ddd eee fff ggg hhh iii'')
                     (Some ''aaa bbb ccc ddd eee fff ggg hhh iii jjj'') = Num (9 / 10) \<and>
   titleThreshold (constructor None) = Num (9 / 10) \<and>
   isDuplicate (constructor None)
     (lead_obj None (Some ''hn'') None (Some ''aaa bbb ccc ddd eee fff ggg hhh iii'') None)
     (lead_obj None (Some ''hn'') None (Some ''aaa bbb ccc ddd eee fff ggg hhh iii jjj'') None) \<and>
   jaccardSimilarity (Some ''aaa bbb ccc ddd eee fff ggg hhh iii'') (Some ''aaa bbb ccc'') = Num (1 / 3) \<and>
   (1::rat) / 3 < 9 / 10 \<and> (1::rat) / 3 < 85 / 100 \<and>
   \<not> isDuplicate (constructor None)
     (lead_obj None (Some ''hn'') None (Some ''aaa bbb ccc ddd eee fff ggg hhh iii'') None)
     (lead_obj None (Some ''hn'') None (Some ''aaa bbb ccc'') None) \<and>
   similarityThreshold (constructor None) = Num (85 / 100) \<and>
   jaccardSimilarity
     (Some (content (lead_obj None (Some ''hn'') None None
        (Some ''a01 a02 a03 a04 a05 a06 a07 a08 a09 a10 a11 a12 a13 a14 a15 a16 a17''))))
     (Some (content (lead_obj None (Some ''reddit'') None None
        (Some ''a01 a02 a03 a04 a05 a06 a07 a08 a09 a10 a11 a12 a13 a14 a15 a16 a17 a18 a19 a20''))))
     = Num (85 / 100) \<and>
   isDuplicate (constructor None)
     (lead_obj None (Some ''hn'') None None
        (Some ''a01 a02 a03 a04 a05 a06 a07 a08 a09 a10 a11 a12 a13 a14 a15 a16 a17''))
     (lead_obj None (Some ''reddit'') None None
        (Some ''a01 a02 a03 a04 a05 a06 a07 a08 a09 a10 a11 a12 a13 a14 a15 a16 a17 a18 a19 a20''))"
proof -
  let ?A = "lead_obj None (Some ''hn'') None (Some ''aaa bbb ccc ddd eee fff ggg hhh iii'') None"
  let ?B = "lead_obj None (Some ''hn'') None (Some ''aaa bbb ccc ddd eee fff ggg hhh iii jjj'') None"
  let ?C = "lead_obj None (Some ''hn'') None (Some ''aaa bbb ccc'') None"
  let ?D = "lead_obj None (Some ''hn'') None None
        (Some ''a01 a02 a03 a04 a05 a06 a07 a08 a09 a10 a11 a12 a13 a14 a15 a16 a17'')"
  let ?E = "lead_obj None (Some ''reddit'') None None
        (Some ''a01 a02 a03 a04 a05 a06 a07 a08 a09 a10 a11 a12 a13 a14 a15 a16 a17 a18 a19 a20'')"
  have tt: "titleThreshold (constructor None) = Num (9 / 10)"
    and st: "similarityThreshold (constructor None) = Num (85 / 100)"
    by (simp_all add: constructor_def num_or_def)
  have ab: "jaccardSimilarity (Some ''aaa bbb ccc ddd eee fff ggg hhh iii'')
              (Some ''aaa bbb ccc ddd eee fff ggg hhh iii jjj'') = Num (9 / 10)"
    by code_simp
  have ac: "jaccardSimilarity (Some ''aaa bbb ccc ddd eee fff ggg hhh iii'') (Some ''aaa bbb ccc'') = Num (1 / 3)"
    by code_simp
  have acc: "jaccardSimilarity (Some (content ?A)) (Some (content ?C)) = Num (1 / 3)"
    by code_simp
  have de: "jaccardSimilarity (Some (content ?D)) (Some (content ?E)) = Num (85 / 100)"
    by code_simp
  have nu: "\<not> (truthy (url ?A) \<and> truthy (url ?B) \<and> url ?A = url ?B)"
    "\<not> (truthy (url ?A) \<and> truthy (url ?C) \<and> url ?A = url ?C)"
    "\<not> (truthy (url ?D) \<and> truthy (url ?E) \<and> url ?D = url ?E)"
    by (simp_all add: truthy_def)
  have 1: "isDuplicate (constructor None) ?A ?B"
    using threshold_boundary [OF nu(1), of "9 / 10" "constructor None"] ab tt by simp
  have 2: "\<not> isDuplicate (constructor None) ?A ?C"
    using threshold_boundary [OF nu(2), of "1 / 3" "constructor None" "9 / 10" "1 / 3" "85 / 100"] ac acc tt st
    by simp
  have 3: "isDuplicate (constructor None) ?D ?E"
    using threshold_boundary [OF nu(3), of _ "constructor None" _ _ "85 / 100"] de st by simp
  show ?thesis
    using 1 2 3 ab ac de tt st by simp
qed

section \<open>dedupe\<close>

lemma check_unique_first:
  "i < length xs \<Longrightarrow> isDuplicate this ld (xs ! i) \<Longrightarrow>
   (\<forall>j<i. \<not> isDuplicate this ld (xs ! j)) \<Longrightarrow>
   check_unique this ld xs = Some (ld\<lparr>duplicateOf := lead_id (xs ! i)\<rparr>)"
proof (induction xs arbitrary: i)
  case Nil
  then show ?case by simp
next
  case (Cons e rest)
  show ?case
  proof (cases i)
    case 0
    with Cons.prems show ?thesis by simp
  next
    case (Suc k)
    from Cons.prems Suc have "\<not> isDuplicate this ld e" by auto
    moreover have "check_unique this ld rest = Some (ld\<lparr>duplicateOf := lead_id (rest ! k)\<rparr>)"
    proof (rule Cons.IH)
      show "k < length rest" using Cons.prems Suc by simp
      show "isDuplicate this ld (rest ! k)" using Cons.prems Suc by simp
      show "\<forall>j<k. \<not> isDuplicate this ld (rest ! j)"
      proof (intro allI impI)
        fix j assume "j < k"
        then have "Suc j < i" using Suc by simp
        with Cons.prems have "\<not> isDuplicate this ld ((e # rest) ! Suc j)" by blast
        then show "\<not> isDuplicate this ld (rest ! j)" by simp
      qed
    qed
    ultimately show ?thesis using Suc by simp
  qed
qed

lemma check_unique_None:
  "check_unique this ld xs = None \<longleftrightarrow> (\<forall>x\<in>set xs. \<not> isDuplicate this ld x)"
  by (induction xs) auto

lemma dedupe_snoc:
  "dedupe digest this h (leads @ [r]) = dedupe_body digest this (dedupe digest this h leads) r"
  by (simp add: dedupe_def)

lemma dedupe_Nil: "dedupe digest this h [] = \<lparr>heap = h, unique = [], duplicates = []\<rparr>"
  by (simp add: dedupe_def)

text \<open>
  C6: the body of the loop compares the lead (after its id is assigned) with the unique leads
  in the order in which they were accepted. At the first one that matches, at position \<open>i\<close>,
  it appends one record to \<open>duplicates\<close>, the lead with \<open>duplicateOf\<close> set to the id of
  that unique lead, and leaves \<open>unique\<close> as it is, whatever the unique leads after position
  \<open>i\<close> are; when none matches it appends the lead to \<open>unique\<close>. \<open>dedupe\<close> runs this body
  on each lead of the input in turn.
\<close>

theorem first_match_only:
  "(i < length (unique st) \<and>
    isDuplicate this (assignId digest (heap st r))
       (((heap st)(r := assignId digest (heap st r))) (unique st ! i)) \<and>
    (\<forall>j<i. \<not> isDuplicate this (assignId digest (heap st r))
       (((heap st)(r := assignId digest (heap st r))) (unique st ! j)))
    \<longrightarrow> dedupe_body digest this st r =
          st\<lparr>heap := (heap st)(r := assignId digest (heap st r)),
             duplicates := duplicates st @
               [(assignId digest (heap st r))
                  \<lparr>duplicateOf := lead_id (((heap st)(r := assignId digest (heap st r))) (unique st ! i))\<rparr>]\<rparr>) \<and>
   ((\<forall>j<length (unique st). \<not> isDuplicate this (assignId digest (heap st r))
       (((heap st)(r := assignId digest (heap st r))) (unique st ! j)))
    \<longrightarrow> dedupe_body digest this st r =
          st\<lparr>heap := (heap st)(r := assignId digest (heap st r)), unique := unique st @ [r]\<rparr>) \<and>
   dedupe digest this h (leads @ [r]) = dedupe_body digest this (dedupe digest this h leads) r"
proof (intro conjI impI)
  let ?h = "(heap st)(r := assignId digest (heap st r))"
  let ?ld = "assignId digest (heap st r)"
  {
    assume a: "i < length (unique st) \<and> isDuplicate this ?ld (?h (unique st ! i)) \<and>
      (\<forall>j<i. \<not> isDuplicate this ?ld (?h (unique st ! j)))"
    have "check_unique this ?ld (map ?h (unique st)) =
          Some (?ld\<lparr>duplicateOf := lead_id (map ?h (unique st) ! i)\<rparr>)"
    proof (rule check_unique_first)
      show "i < length (map ?h (unique st))" using a by simp
      show "isDuplicate this ?ld (map ?h (unique st) ! i)" using a by simp
      show "\<forall>j<i. \<not> isDuplicate this ?ld (map ?h (unique st) ! j)" using a by simp
    qed
    then have c: "check_unique this (?h r) (map ?h (unique st)) =
          Some (?ld\<lparr>duplicateOf := lead_id (?h (unique st ! i))\<rparr>)"
      using a by simp
    show "dedupe_body digest this st r =
          st\<lparr>heap := ?h, duplicates := duplicates st @ [?ld\<lparr>duplicateOf := lead_id (?h (unique st ! i))\<rparr>]\<rparr>"
      unfolding dedupe_body_def Let_def c by simp
  }
  {
    assume a: "\<forall>j<length (unique st). \<not> isDuplicate this ?ld (?h (unique st ! j))"
    have "\<forall>x\<in>set (map ?h (unique st)). \<not> isDuplicate this ?ld x"
      using a by (auto simp: in_set_conv_nth simp del: fun_upd_apply)
    then have "check_unique this ?ld (map ?h (unique st)) = None"
      by (simp only: check_unique_None)
    then have c: "check_unique this (?h r) (map ?h (unique st)) = None"
      by simp
    show "dedupe_body digest this st r = st\<lparr>heap := ?h, unique := unique st @ [r]\<rparr>"
      unfolding dedupe_body_def Let_def c by simp
  }
  show "dedupe digest this h (leads @ [r]) = dedupe_body digest this (dedupe digest this h leads) r"
    by (rule dedupe_snoc)
qed



text \<open>
  The lead at reference 3 matches the second and the third unique lead and not the first: it
  becomes a duplicate of the second. The lead at reference 2 matches neither of the two
  before it and is accepted as unique.
\<close>

theorem first_match_only_witness:
  "(1::nat) < length [0::nat, 1, 2] \<and>
   \<not> isDuplicate (constructor None) (assignId (\<lambda>s. s) lead_X) lead_A \<and>
   isDuplicate (constructor None) (assignId (\<lambda>s. s) lead_X) lead_B \<and>
   isDuplicate (constructor None) (assignId (\<lambda>s. s) lead_X) lead_C \<and>
   unique (dedupe_body (\<lambda>s. s) (constructor None)
            \<lparr>heap = example_heap, unique = [0, 1, 2], duplicates = []\<rparr> 3) = [0, 1, 2] \<and>
   duplicates (dedupe_body (\<lambda>s. s) (constructor None)
            \<lparr>heap = example_heap, unique = [0, 1, 2], duplicates = []\<rparr> 3)
     = [lead_X\<lparr>lead_id := Some ''reddit:http://e.'', duplicateOf := Some ''b''\<rparr>] \<and>
   \<not> isDuplicate (constructor None) (assignId (\<lambda>s. s) lead_C) lead_A \<and>
   \<not> isDuplicate (constructor None) (assignId (\<lambda>s. s) lead_C) lead_B \<and>
   unique (dedupe_body (\<lambda>s. s) (constructor None)
            \<lparr>heap = example_heap, unique = [0, 1], duplicates = []\<rparr> 2) = [0, 1, 2] \<and>
   duplicates (dedupe_body (\<lambda>s. s) (constructor None)
            \<lparr>heap = example_heap, unique = [0, 1], duplicates = []\<rparr> 2) = []"
proof -
  have x: "assignId (\<lambda>s. s) lead_X = lead_X\<lparr>lead_id := Some ''reddit:http://e.''\<rparr>"
    by (simp add: assignId_def generateId_def truthy_def template_def or_empty_def)
  have c: "assignId (\<lambda>s. s) lead_C = lead_C"
    by (simp add: assignId_def truthy_def)
  have xa: "\<not> isDuplicate (constructor None) (assignId (\<lambda>s. s) lead_X) lead_A"
    unfolding x by code_simp
  have xb: "isDuplicate (constructor None) (assignId (\<lambda>s. s) lead_X) lead_B"
    unfolding x by code_simp
  have xc: "isDuplicate (constructor None) (assignId (\<lambda>s. s) lead_X) lead_C"
    unfolding x by code_simp
  have ca: "\<not> isDuplicate (constructor None) (assignId (\<lambda>s. s) lead_C) lead_A"
    unfolding c by code_simp
  have cb: "\<not> isDuplicate (constructor None) (assignId (\<lambda>s. s) lead_C) lead_B"
    unfolding c by code_simp
  have 1: "dedupe_body (\<lambda>s. s) (constructor None)
            \<lparr>heap = example_heap, unique = [0, 1, 2], duplicates = []\<rparr> 3
         = \<lparr>heap = example_heap(3 := assignId (\<lambda>s. s) lead_X), unique = [0, 1, 2],
            duplicates = [(assignId (\<lambda>s. s) lead_X)\<lparr>duplicateOf := Some ''b''\<rparr>]\<rparr>"
    using first_match_only [of 1 "\<lparr>heap = example_heap, unique = [0, 1, 2], duplicates = []\<rparr>"
        "constructor None" "\<lambda>s. s" 3] xa xb
    by (simp add: less_Suc_eq)
  have 2: "dedupe_body (\<lambda>s. s) (constructor None)
            \<lparr>heap = example_heap, unique = [0, 1], duplicates = []\<rparr> 2
         = \<lparr>heap = example_heap(2 := assignId (\<lambda>s. s) lead_C), unique = [0, 1, 2], duplicates = []\<rparr>"
    using first_match_only [of 0 "\<lparr>heap = example_heap, unique = [0, 1], duplicates = []\<rparr>"
        "constructor None" "\<lambda>s. s" 2] ca cb
    by (simp add: less_Suc_eq numeral_2_eq_2)
  show ?thesis
    unfolding 1 2 using xa xb xc ca cb by (simp add: x)
qed

section \<open>checkExisting\<close>

lemma check_similar_first:
  "i < length xs \<Longrightarrow> isDuplicate this ld (xs ! i) \<Longrightarrow>
   (\<forall>j<i. \<not> isDuplicate this ld (xs ! j)) \<Longrightarrow>
   check_similar this ld xs = \<lparr>res_exists = True, res_lead = Some (xs ! i), res_similar = Some True\<rparr>"
proof (induction xs arbitrary: i)
  case Nil
  then show ?case by simp
next
  case (Cons e rest)
  show ?case
  proof (cases i)
    case 0
    with Cons.prems show ?thesis by simp
  next
    case (Suc k)
    from Cons.prems Suc have ne: "\<not> isDuplicate this ld e" by auto
    have later: "\<forall>j<k. \<not> isDuplicate this ld (rest ! j)"
    proof (intro allI impI)
      fix j assume "j < k"
      then have "Suc j < i" using Suc by simp
      with Cons.prems have "\<not> isDuplicate this ld ((e # rest) ! Suc j)" by blast
      then show "\<not> isDuplicate this ld (rest ! j)" by simp
    qed
    have "check_similar this ld rest =
            \<lparr>res_exists = True, res_lead = Some (rest ! k), res_similar = Some True\<rparr>"
      using Cons.prems Suc later by (intro Cons.IH) simp_all
    with ne Suc show ?thesis by simp
  qed
qed

lemma check_similar_exists:
  "res_exists (check_similar this ld xs) \<longleftrightarrow> (\<exists>x\<in>set xs. isDuplicate this ld x)"
  by (induction xs) auto

text \<open>
  C9: when the lookup of the lead's id in the store finds a record, \<open>checkExisting\<close> returns
  \<open>exists\<close> with that record and no \<open>similar\<close> flag, whatever the thresholds and the other
  stored leads are. When the lookup finds nothing, the stored leads are tried in the order
  in which the store returns them, and the first one that \<open>isDuplicate\<close> accepts is returned
  with the \<open>similar\<close> flag. The result has \<open>exists\<close> false exactly when the lookup finds
  nothing and no stored lead is a duplicate.
\<close>

theorem checkExisting_order:
  "(getLeadById store (lead_id ld) = Some e \<longrightarrow>
      checkExisting this ld store = \<lparr>res_exists = True, res_lead = Some e, res_similar = None\<rparr>) \<and>
   (getLeadById store (lead_id ld) = None \<and> i < length (getAllLeads store) \<and>
    isDuplicate this ld (getAllLeads store ! i) \<and>
    (\<forall>j<i. \<not> isDuplicate this ld (getAllLeads store ! j)) \<longrightarrow>
      checkExisting this ld store =
        \<lparr>res_exists = True, res_lead = Some (getAllLeads store ! i), res_similar = Some True\<rparr>) \<and>
   (\<not> res_exists (checkExisting this ld store) \<longleftrightarrow>
      getLeadById store (lead_id ld) = None \<and>
      (\<forall>x\<in>set (getAllLeads store). \<not> isDuplicate this ld x))"
proof (intro conjI impI)
  assume "getLeadById store (lead_id ld) = Some e"
  then show "checkExisting this ld store = \<lparr>res_exists = True, res_lead = Some e, res_similar = None\<rparr>"
    by (simp add: checkExisting_def)
next
  assume a: "getLeadById store (lead_id ld) = None \<and> i < length (getAllLeads store) \<and>
    isDuplicate this ld (getAllLeads store ! i) \<and>
    (\<forall>j<i. \<not> isDuplicate this ld (getAllLeads store ! j))"
  then have "check_similar this ld (getAllLeads store) =
      \<lparr>res_exists = True, res_lead = Some (getAllLeads store ! i), res_similar = Some True\<rparr>"
    by (intro check_similar_first) simp_all
  with a show "checkExisting this ld store =
      \<lparr>res_exists = True, res_lead = Some (getAllLeads store ! i), res_similar = Some True\<rparr>"
    by (simp add: checkExisting_def)
next
  show "\<not> res_exists (checkExisting this ld store) \<longleftrightarrow>
      getLeadById store (lead_id ld) = None \<and>
      (\<forall>x\<in>set (getAllLeads store). \<not> isDuplicate this ld x)"
    by (cases "getLeadById store (lead_id ld)") (simp_all add: checkExisting_def check_similar_exists)
qed

text \<open>
  On the database of the repository: a lead with the id of a stored one; a lead without id
  that matches the second and third stored leads; and a lead that matches nothing stored.
\<close>

theorem checkExisting_order_witness:
  "getLeadById (Database [lead_A, lead_B, lead_C]) (lead_id (lead_B\<lparr>title := None\<rparr>)) = Some lead_B \<and>
   checkExisting (constructor None) (lead_B\<lparr>title := None\<rparr>) (Database [lead_A, lead_B, lead_C])
     = \<lparr>res_exists = True, res_lead = Some lead_B, res_similar = None\<rparr> \<and>
   getLeadById (Database [lead_A, lead_B, lead_C]) (lead_id lead_X) = None \<and>
   (1::nat) < length (getAllLeads (Database [lead_A, lead_B, lead_C])) \<and>
   \<not> isDuplicate (constructor None) lead_X lead_A \<and>
   isDuplicate (constructor None) lead_X lead_B \<and>
   isDuplicate (constructor None) lead_X lead_C \<and>
   checkExisting (constructor None) lead_X (Database [lead_A, lead_B, lead_C])
     = \<lparr>res_exists = True, res_lead = Some lead_B, res_similar = Some True\<rparr> \<and>
   getLeadById (Database [lead_A, lead_B]) (lead_id lead_C) = None \<and>
   \<not> isDuplicate (constructor None) lead_C lead_A \<and>
   \<not> isDuplicate (constructor None) lead_C lead_B \<and>
   \<not> res_exists (checkExisting (constructor None) lead_C (Database [lead_A, lead_B]))"
proof -
  have xa: "\<not> isDuplicate (constructor None) lead_X lead_A" by code_simp
  have xb: "isDuplicate (constructor None) lead_X lead_B" by code_simp
  have xc: "isDuplicate (constructor None) lead_X lead_C" by code_simp
  have ca: "\<not> isDuplicate (constructor None) lead_C lead_A" by code_simp
  have cb: "\<not> isDuplicate (constructor None) lead_C lead_B" by code_simp
  have 1: "checkExisting (constructor None) (lead_B\<lparr>title := None\<rparr>) (Database [lead_A, lead_B, lead_C])
     = \<lparr>res_exists = True, res_lead = Some lead_B, res_similar = None\<rparr>"
    using checkExisting_order [where store = "Database [lead_A, lead_B, lead_C]"
        and ld = "lead_B\<lparr>title := None\<rparr>" and e = lead_B and this = "constructor None"]
    by (simp add: Database_def)
  have 2: "checkExisting (constructor None) lead_X (Database [lead_A, lead_B, lead_C])
     = \<lparr>res_exists = True, res_lead = Some lead_B, res_similar = Some True\<rparr>"
    using checkExisting_order [where store = "Database [lead_A, lead_B, lead_C]"
        and ld = lead_X and i = 1 and this = "constructor None"] xa xb
    by (simp add: Database_def)
  have 3: "\<not> res_exists (checkExisting (constructor None) lead_C (Database [lead_A, lead_B]))"
    using checkExisting_order [where store = "Database [lead_A, lead_B]"
        and ld = lead_C and this = "constructor None"] ca cb
    by (simp add: Database_def)
  show ?thesis
    using 1 2 3 xa xb xc ca cb by (simp add: Database_def)
qed

section \<open>The heap and the lists that dedupe returns\<close>

lemma check_unique_Some:
  "check_unique this ld xs = Some d \<Longrightarrow>
   \<exists>e\<in>set xs. isDuplicate this ld e \<and> d = ld\<lparr>duplicateOf := lead_id e\<rparr>"
  by (induction xs) (auto split: if_splits)

lemma generateId_lead_id: "generateId digest (ld\<lparr>lead_id := v\<rparr>) = generateId digest ld"
  by (simp add: generateId_def)

lemma assignId_idem: "assignId digest (assignId digest ld) = assignId digest ld"
  by (simp add: assignId_def generateId_lead_id)

lemma heap_dedupe_body:
  "heap (dedupe_body digest this st r) = (heap st)(r := assignId digest (heap st r))"
  by (simp add: dedupe_body_def Let_def split: option.split)

lemma heap_dedupe:
  "heap (dedupe digest this h leads) x = (if x \<in> set leads then assignId digest (h x) else h x)"
proof (induction leads rule: rev_induct)
  case Nil
  show ?case by (simp add: dedupe_Nil)
next
  case (snoc r leads)
  show ?case
  proof (cases "x = r")
    case True
    have "heap (dedupe digest this h (leads @ [r])) r
            = assignId digest (heap (dedupe digest this h leads) r)"
      by (simp add: dedupe_snoc heap_dedupe_body)
    also have "\<dots> = assignId digest (h r)"
      using snoc.IH True by (simp add: assignId_idem)
    finally show ?thesis using True by simp
  next
    case False
    then show ?thesis
      using snoc.IH by (simp add: dedupe_snoc heap_dedupe_body)
  qed
qed

lemma unique_dedupe_body:
  "unique (dedupe_body digest this st r) = unique st \<or>
   unique (dedupe_body digest this st r) = unique st @ [r]"
  by (simp add: dedupe_body_def Let_def split: option.split)

lemma unique_subseq: "subseq (unique (dedupe digest this h leads)) leads"
proof (induction leads rule: rev_induct)
  case Nil
  show ?case by (simp add: dedupe_Nil)
next
  case (snoc r leads)
  from unique_dedupe_body [of digest this "dedupe digest this h leads" r]
  show ?case
  proof
    assume "unique (dedupe_body digest this (dedupe digest this h leads) r)
              = unique (dedupe digest this h leads)"
    then show ?thesis
      using snoc.IH by (simp add: dedupe_snoc subseq_rev_drop_many)
  next
    assume "unique (dedupe_body digest this (dedupe digest this h leads) r)
              = unique (dedupe digest this h leads) @ [r]"
    then show ?thesis
      using snoc.IH by (simp add: dedupe_snoc list_emb_append_mono)
  qed
qed

lemma unique_subset: "set (unique (dedupe digest this h leads)) \<subseteq> set leads"
  using unique_subseq [of digest this h leads] by (auto elim: list_emb_set)


lemma subseq_distinct: "subseq xs ys \<Longrightarrow> distinct ys \<Longrightarrow> distinct xs"
proof (induction rule: list_emb.induct)
  case (list_emb_Nil ys)
  show ?case by simp
next
  case (list_emb_Cons xs ys y)
  then show ?case by simp
next
  case (list_emb_Cons2 x y xs ys)
  then show ?case by (auto elim: list_emb_set)
qed

text \<open>The body of the loop on a state that \<open>dedupe\<close> reaches, in terms of the final objects.\<close>

lemma dedupe_body_reached:
  assumes st: "st = dedupe digest this h leads"
  shows "dedupe_body digest this st r =
     (case check_unique this (assignId digest (h r))
             (map (\<lambda>u. assignId digest (h u)) (unique st)) of
        Some dup \<Rightarrow> st\<lparr>heap := (heap st)(r := assignId digest (h r)),
                       duplicates := duplicates st @ [dup]\<rparr>
      | None \<Rightarrow> st\<lparr>heap := (heap st)(r := assignId digest (h r)), unique := unique st @ [r]\<rparr>)"
proof -
  let ?h1 = "(heap st)(r := assignId digest (heap st r))"
  have r: "assignId digest (heap st r) = assignId digest (h r)"
    unfolding st by (simp add: heap_dedupe assignId_idem)
  have "?h1 u = assignId digest (h u)" if "u \<in> set (unique st)" for u
  proof (cases "u = r")
    case True
    then show ?thesis using r by simp
  next
    case False
    have "u \<in> set leads" using that unique_subset [of digest this h leads] st by auto
    then show ?thesis using False unfolding st by (simp add: heap_dedupe)
  qed
  then have m: "map ?h1 (unique st) = map (\<lambda>u. assignId digest (h u)) (unique st)"
    by (intro map_cong) simp_all
  have hr: "?h1 r = assignId digest (h r)" using r by simp
  show ?thesis
    unfolding dedupe_body_def Let_def m hr unfolding r ..
qed

lemma unique_accepted:
  "i < length (unique (dedupe digest this h leads)) \<Longrightarrow>
   check_unique this (assignId digest (h (unique (dedupe digest this h leads) ! i)))
     (map (\<lambda>u. assignId digest (h u)) (take i (unique (dedupe digest this h leads)))) = None"
proof (induction leads arbitrary: i rule: rev_induct)
  case Nil
  then show ?case by (simp add: dedupe_Nil)
next
  case (snoc r leads)
  let ?st = "dedupe digest this h leads"
  let ?g = "\<lambda>u. assignId digest (h u)"
  show ?case
  proof (cases "check_unique this (?g r) (map ?g (unique ?st))")
    case None
    then have u: "unique (dedupe digest this h (leads @ [r])) = unique ?st @ [r]"
      by (simp add: dedupe_snoc dedupe_body_reached [OF refl])
    show ?thesis
    proof (cases "i < length (unique ?st)")
      case True
      then show ?thesis using snoc.IH [of i] by (simp add: u nth_append)
    next
      case False
      with snoc.prems have "i = length (unique ?st)" by (simp add: u)
      then show ?thesis using None by (simp add: u)
    qed
  next
    case (Some dup)
    then have u: "unique (dedupe digest this h (leads @ [r])) = unique ?st"
      by (simp add: dedupe_snoc dedupe_body_reached [OF refl])
    show ?thesis using snoc.IH [of i] snoc.prems by (simp add: u)
  qed
qed

lemma unique_mono:
  "set (unique (dedupe digest this h leads)) \<subseteq> set (unique (dedupe digest this h (leads @ [r])))"
  using unique_dedupe_body [of digest this "dedupe digest this h leads" r]
  by (auto simp: dedupe_snoc)

lemma duplicates_copies:
  "d \<in> set (duplicates (dedupe digest this h leads)) \<Longrightarrow>
   \<exists>r\<in>set leads. \<exists>e\<in>set (unique (dedupe digest this h leads)).
      isDuplicate this (assignId digest (h r)) (assignId digest (h e)) \<and>
      d = (assignId digest (h r))\<lparr>duplicateOf := lead_id (assignId digest (h e))\<rparr>"
proof (induction leads rule: rev_induct)
  case Nil
  then show ?case by (simp add: dedupe_Nil)
next
  case (snoc r leads)
  let ?st = "dedupe digest this h leads"
  let ?g = "\<lambda>u. assignId digest (h u)"
  show ?case
  proof (cases "check_unique this (?g r) (map ?g (unique ?st))")
    case None
    then have eq: "duplicates (dedupe digest this h (leads @ [r])) = duplicates ?st"
      by (simp add: dedupe_snoc dedupe_body_reached [OF refl])
    with snoc.prems have "d \<in> set (duplicates ?st)" by simp
    from snoc.IH [OF this] obtain r' e where
      "r' \<in> set leads" "e \<in> set (unique ?st)"
      "isDuplicate this (?g r') (?g e)" "d = (?g r')\<lparr>duplicateOf := lead_id (?g e)\<rparr>"
      by blast
    then show ?thesis
      using unique_mono [of digest this h leads r] by auto
  next
    case (Some dup)
    then have eq: "duplicates (dedupe digest this h (leads @ [r])) = duplicates ?st @ [dup]"
      and un: "unique (dedupe digest this h (leads @ [r])) = unique ?st"
      by (simp_all add: dedupe_snoc dedupe_body_reached [OF refl])
    show ?thesis
    proof (cases "d = dup")
      case True
      from check_unique_Some [OF Some] obtain e0 where
        "e0 \<in> set (map ?g (unique ?st))" "isDuplicate this (?g r) e0"
        "dup = (?g r)\<lparr>duplicateOf := lead_id e0\<rparr>"
        by blast
      then obtain e where "e \<in> set (unique ?st)" "isDuplicate this (?g r) (?g e)"
        "dup = (?g r)\<lparr>duplicateOf := lead_id (?g e)\<rparr>"
        by auto
      then show ?thesis using True un by auto
    next
      case False
      with snoc.prems eq have "d \<in> set (duplicates ?st)" by simp
      from snoc.IH [OF this] obtain r' e where
        "r' \<in> set leads" "e \<in> set (unique ?st)"
        "isDuplicate this (?g r') (?g e)" "d = (?g r')\<lparr>duplicateOf := lead_id (?g e)\<rparr>"
        by blast
      then show ?thesis using un by auto
    qed
  qed
qed


lemma second_pass:
  assumes stable: "\<forall>u\<in>set U. assignId digest (h' u) = h' u"
    and accepted: "\<forall>i<length U. check_unique this (h' (U ! i)) (map h' (take i U)) = None"
  shows "n \<le> length U \<Longrightarrow>
         dedupe digest this h' (take n U) = \<lparr>heap = h', unique = take n U, duplicates = []\<rparr>"
proof (induction n)
  case 0
  show ?case by (simp add: dedupe_Nil)
next
  case (Suc n)
  then have n: "n < length U" by simp
  have t: "take (Suc n) U = take n U @ [U ! n]"
    using n by (simp add: take_Suc_conv_app_nth)
  have prev: "dedupe digest this h' (take n U) = \<lparr>heap = h', unique = take n U, duplicates = []\<rparr>"
    using Suc by simp
  have s: "assignId digest (h' (U ! n)) = h' (U ! n)"
    using stable n by simp
  have c: "check_unique this (h' (U ! n)) (map h' (take n U)) = None"
    using accepted n by simp
  show ?case
    unfolding t dedupe_snoc prev by (simp add: dedupe_body_def s c)
qed

text \<open>
  C8: a second call of \<open>dedupe\<close> on the \<open>unique\<close> list of a first call, with the objects
  as the first call left them, returns that list as \<open>unique\<close>, in the same order, finds no
  duplicate and changes no object.
\<close>

theorem batch_idempotence:
  "dedupe digest this (heap (dedupe digest this h leads)) (unique (dedupe digest this h leads))
     = \<lparr>heap = heap (dedupe digest this h leads),
        unique = unique (dedupe digest this h leads),
        duplicates = []\<rparr>"
proof -
  let ?st = "dedupe digest this h leads"
  let ?g = "\<lambda>u. assignId digest (h u)"
  have g: "heap ?st u = ?g u" if "u \<in> set (unique ?st)" for u
    using that unique_subset [of digest this h leads] by (auto simp: heap_dedupe)
  have stable: "\<forall>u\<in>set (unique ?st). assignId digest (heap ?st u) = heap ?st u"
    using g by (simp add: assignId_idem)
  have accepted: "\<forall>i<length (unique ?st).
      check_unique this (heap ?st (unique ?st ! i)) (map (heap ?st) (take i (unique ?st))) = None"
  proof (intro allI impI)
    fix i assume i: "i < length (unique ?st)"
    have m: "map (heap ?st) (take i (unique ?st)) = map ?g (take i (unique ?st))"
      using g by (intro map_cong) (auto dest: in_set_takeD)
    have "heap ?st (unique ?st ! i) = ?g (unique ?st ! i)"
      using g i by simp
    then show "check_unique this (heap ?st (unique ?st ! i)) (map (heap ?st) (take i (unique ?st))) = None"
      using unique_accepted [OF i] by (simp add: m)
  qed
  from second_pass [OF stable accepted, of "length (unique ?st)"]
  show ?thesis by simp
qed

text \<open>
  C10: \<open>dedupe\<close> writes into the caller's objects. After the call an input lead that had no
  id is the same object with \<open>id\<close> set to the generated id and every other property as
  before, whether it ends in \<open>unique\<close> or in \<open>duplicates\<close>; an input lead that had an id
  is unchanged, and so is every object that is not in the input. \<open>unique\<close> holds references
  to input objects, in input order; each entry of \<open>duplicates\<close> is a new object, a copy of
  an input lead with \<open>duplicateOf\<close> set to the id of a unique lead.
\<close>

theorem dedupe_writes_ids:
  "(\<forall>r\<in>set leads. \<not> truthy (lead_id (h r)) \<longrightarrow>
      heap (dedupe digest this h leads) r = (h r)\<lparr>lead_id := Some (generateId digest (h r))\<rparr>) \<and>
   (\<forall>r\<in>set leads. truthy (lead_id (h r)) \<longrightarrow> heap (dedupe digest this h leads) r = h r) \<and>
   (\<forall>r. r \<notin> set leads \<longrightarrow> heap (dedupe digest this h leads) r = h r) \<and>
   subseq (unique (dedupe digest this h leads)) leads \<and>
   (\<forall>d\<in>set (duplicates (dedupe digest this h leads)).
      \<exists>r\<in>set leads. \<exists>e\<in>set (unique (dedupe digest this h leads)).
        d = (heap (dedupe digest this h leads) r)
              \<lparr>duplicateOf := lead_id (heap (dedupe digest this h leads) e)\<rparr>)"
proof (intro conjI ballI allI impI)
  fix r assume "r \<in> set leads" "\<not> truthy (lead_id (h r))"
  then show "heap (dedupe digest this h leads) r = (h r)\<lparr>lead_id := Some (generateId digest (h r))\<rparr>"
    by (simp add: heap_dedupe assignId_def)
next
  fix r assume "r \<in> set leads" "truthy (lead_id (h r))"
  then show "heap (dedupe digest this h leads) r = h r"
    by (simp add: heap_dedupe assignId_def)
next
  fix r assume "r \<notin> set leads"
  then show "heap (dedupe digest this h leads) r = h r"
    by (simp add: heap_dedupe)
next
  show "subseq (unique (dedupe digest this h leads)) leads"
    by (rule unique_subseq)
next
  fix d assume "d \<in> set (duplicates (dedupe digest this h leads))"
  from duplicates_copies [OF this] obtain r e where
    r: "r \<in> set leads" and e: "e \<in> set (unique (dedupe digest this h leads))"
    and d: "d = (assignId digest (h r))\<lparr>duplicateOf := lead_id (assignId digest (h e))\<rparr>"
    by blast
  have "e \<in> set leads" using e unique_subset [of digest this h leads] by auto
  with r d have "d = (heap (dedupe digest this h leads) r)
              \<lparr>duplicateOf := lead_id (heap (dedupe digest this h leads) e)\<rparr>"
    by (simp add: heap_dedupe)
  with r e show "\<exists>r\<in>set leads. \<exists>e\<in>set (unique (dedupe digest this h leads)).
        d = (heap (dedupe digest this h leads) r)
              \<lparr>duplicateOf := lead_id (heap (dedupe digest this h leads) e)\<rparr>"
    by blast
qed


subsection \<open>A run on the example heap\<close>

lemma example_assign:
  "assignId (\<lambda>s. s) lead_A = lead_A" "assignId (\<lambda>s. s) lead_B = lead_B"
  "assignId (\<lambda>s. s) lead_C = lead_C"
  "assignId (\<lambda>s. s) lead_X = lead_X\<lparr>lead_id := Some ''reddit:http://e.''\<rparr>"
  by (simp_all add: assignId_def generateId_def truthy_def template_def or_empty_def)

lemma example_pairs:
  "\<not> isDuplicate (constructor None) lead_B lead_A"
  "\<not> isDuplicate (constructor None) lead_C lead_A"
  "\<not> isDuplicate (constructor None) lead_C lead_B"
  "\<not> isDuplicate (constructor None) (lead_X\<lparr>lead_id := Some ''reddit:http://e.''\<rparr>) lead_A"
  "isDuplicate (constructor None) (lead_X\<lparr>lead_id := Some ''reddit:http://e.''\<rparr>) lead_B"
  by code_simp+

lemma example_run:
  "dedupe (\<lambda>s. s) (constructor None) example_heap [0, 1, 2, 3] =
     \<lparr>heap = example_heap(3 := lead_X\<lparr>lead_id := Some ''reddit:http://e.''\<rparr>),
      unique = [0, 1, 2],
      duplicates = [lead_X\<lparr>lead_id := Some ''reddit:http://e.'', duplicateOf := Some ''b''\<rparr>]\<rparr>"
  using example_pairs
  by (simp add: dedupe_def dedupe_body_def example_assign)


text \<open>
  On the example heap: the lead at reference 3 has no id, gets the generated one and ends in
  \<open>duplicates\<close>; the lead at reference 0 has an id and is unchanged; reference 4 is not in
  the input.
\<close>

theorem dedupe_writes_ids_witness:
  "(3::nat) \<in> set [0, 1, 2, 3] \<and> \<not> truthy (lead_id (example_heap 3)) \<and>
   heap (dedupe (\<lambda>s. s) (constructor None) example_heap [0, 1, 2, 3]) 3
     = lead_X\<lparr>lead_id := Some ''reddit:http://e.''\<rparr> \<and>
   (0::nat) \<in> set [0, 1, 2, 3] \<and> truthy (lead_id (example_heap 0)) \<and>
   heap (dedupe (\<lambda>s. s) (constructor None) example_heap [0, 1, 2, 3]) 0 = lead_A \<and>
   (4::nat) \<notin> set [0, 1, 2, 3] \<and>
   heap (dedupe (\<lambda>s. s) (constructor None) example_heap [0, 1, 2, 3]) 4 = example_heap 4 \<and>
   unique (dedupe (\<lambda>s. s) (constructor None) example_heap [0, 1, 2, 3]) = [0, 1, 2] \<and>
   duplicates (dedupe (\<lambda>s. s) (constructor None) example_heap [0, 1, 2, 3])
     = [(heap (dedupe (\<lambda>s. s) (constructor None) example_heap [0, 1, 2, 3]) 3)
          \<lparr>duplicateOf := lead_id (heap (dedupe (\<lambda>s. s) (constructor None) example_heap [0, 1, 2, 3]) 1)\<rparr>]"
proof -
  let ?st = "dedupe (\<lambda>s. s) (constructor None) example_heap [0, 1, 2, 3]"
  note w = dedupe_writes_ids [of "[0, 1, 2, 3]" example_heap "\<lambda>s. s" "constructor None"]
  have g: "generateId (\<lambda>s. s) lead_X = ''reddit:http://e.''"
    by (simp add: generateId_def truthy_def template_def or_empty_def)
  have t3: "\<not> truthy (lead_id (example_heap 3))" and t0: "truthy (lead_id (example_heap 0))"
    by (simp_all add: truthy_def)
  have 1: "heap ?st 3 = lead_X\<lparr>lead_id := Some ''reddit:http://e.''\<rparr>"
    using w [THEN conjunct1, THEN bspec, of 3] t3 g by simp
  have 2: "heap ?st 0 = lead_A"
    using w [THEN conjunct2, THEN conjunct1, THEN bspec, of 0] t0 by simp
  have 3: "heap ?st 4 = example_heap 4"
    using w [THEN conjunct2, THEN conjunct2, THEN conjunct1, THEN spec, of 4] by simp
  have u: "unique ?st = [0, 1, 2]"
    unfolding example_run by simp
  have dd: "duplicates ?st = [(heap ?st 3)\<lparr>duplicateOf := lead_id (heap ?st 1)\<rparr>]"
    unfolding example_run by simp
  have m: "(3::nat) \<in> set [0, 1, 2, 3]" "(0::nat) \<in> set [0, 1, 2, 3]" "(4::nat) \<notin> set [0, 1, 2, 3]"
    by simp_all
  show ?thesis
    using m 1 2 3 t3 t0 u dd by (intro conjI)
qed



end
